theory Spec2Isabelle
  imports Main "HOL-Library.Char_ord"
begin

section \<open>gomacro base/read.go: the multi-line reader\<close>

text \<open>
  A shallow embedding of \<^verbatim>\<open>ReadMultiline\<close> and \<^verbatim>\<open>lastIsKeywordIgnoresNl\<close>
  of \<^verbatim>\<open>base/read.go\<close>. Bytes are \<open>char\<close> (8 bits, ordered by their code), byte
  slices are \<open>char list\<close>, Go's \<^verbatim>\<open>int\<close> is \<open>int\<close>: every integer of the function is
  bounded by the number of bytes read, so no operation can wrap around.
\<close>

subsection \<open>Byte constants\<close>

abbreviation NL :: char where "NL \<equiv> CHR 0x0A"
abbreviation SPACE :: char where "SPACE \<equiv> CHR 0x20"
abbreviation DQUOTE :: char where "DQUOTE \<equiv> CHR 0x22"
abbreviation SQUOTE :: char where "SQUOTE \<equiv> CHR 0x27"
abbreviation BACKSLASH :: char where "BACKSLASH \<equiv> CHR 0x5C"
abbreviation BACKTICK :: char where "BACKTICK \<equiv> CHR 0x60"

subsection \<open>Modes, errors, scanner state\<close>

datatype mode =
    mNormal | mPlus | mMinus | mRune | mString | mRuneEscape | mStringEscape
  | mRawString | mSlash | mHash | mLineComment | mComment | mCommentStar | mTilde

text \<open>
  The errors the function can return: those of the underlying reader (\<open>EOF\<close>, or any
  other I/O error, named by its message), and the two it builds itself with
  \<^verbatim>\<open>errors.New\<close>: "unexpected EOF" and "unexpected character %q inside %s literal".
\<close>

datatype error =
    EOF
  | IOError string
  | UnexpectedEOF
  | UnexpectedChar char string

text \<open>The local variables of \<^verbatim>\<open>ReadMultiline\<close> that its closures capture and its loops update.\<close>

record scan =
  m :: mode
  paren :: int
  ignorenl :: bool
  firstToken :: int
  lastToken :: int
  line :: "char list"
  buf :: "char list"

text \<open>
  How one call ends: it returns its three results, or it panics (an index out of range
  on \<^verbatim>\<open>line[i-1]\<close>).
\<close>

datatype outcome =
    Returned "char list" int "error option"
  | Panicked

text \<open>
  How the body of the loop over the bytes of a line ends for one byte: the function
  returns, the loop goes to the next byte (\<^verbatim>\<open>continue\<close>), or the \<^verbatim>\<open>switch\<close> is left
  and the rest of the body runs.
\<close>

datatype step =
    Ret outcome
  | Cont scan
  | Fall scan

subsection \<open>The closures\<close>

definition resetnl :: "int \<Rightarrow> mode \<Rightarrow> bool" where
  "resetnl p md \<longleftrightarrow>
     p \<noteq> 0 \<or>
     (md \<noteq> mNormal \<and> md \<noteq> mSlash \<and> md \<noteq> mHash \<and>
      md \<noteq> mLineComment \<and> md \<noteq> mComment \<and> md \<noteq> mCommentStar)"

definition foundtoken :: "int \<Rightarrow> scan \<Rightarrow> scan" where
  "foundtoken pos s =
     (let s1 = s\<lparr>lastToken := int (length (buf s)) + pos\<rparr>
      in if firstToken s1 < 0 then s1\<lparr>firstToken := lastToken s1\<rparr> else s1)"

definition invalidChar :: "nat \<Rightarrow> char \<Rightarrow> string \<Rightarrow> scan \<Rightarrow> outcome" where
  "invalidChar i ch ctx s =
     Returned (buf s @ take i (line s)) (firstToken s) (Some (UnexpectedChar ch ctx))"

subsection \<open>One byte\<close>

text \<open>The \<^verbatim>\<open>case mNormal\<close> of the switch, also reached by \<^verbatim>\<open>fallthrough\<close> from \<^verbatim>\<open>mPlus, mMinus\<close>.\<close>

definition case_normal :: "char \<Rightarrow> scan \<Rightarrow> step" where
  "case_normal ch s =
     (if ch = CHR ''('' \<or> ch = CHR ''['' \<or> ch = CHR ''{'' then Fall (s\<lparr>paren := paren s + 1\<rparr>)
      else if ch = CHR '')'' \<or> ch = CHR '']'' \<or> ch = CHR ''}'' then Fall (s\<lparr>paren := paren s - 1\<rparr>)
      else if ch = SQUOTE then Fall (s\<lparr>m := mRune\<rparr>)
      else if ch = DQUOTE then Fall (s\<lparr>m := mString\<rparr>)
      else if ch = BACKTICK then Fall (s\<lparr>m := mRawString\<rparr>)
      else if ch = CHR ''/'' then Cont (s\<lparr>m := mSlash\<rparr>)
      else if ch = CHR ''#'' then Cont (s\<lparr>m := mHash\<rparr>)
      else if ch = CHR ''~'' then Fall (s\<lparr>m := mTilde\<rparr>)
      else if ch = CHR ''!'' \<or> ch = CHR ''%'' \<or> ch = CHR ''&'' \<or> ch = CHR ''*'' \<or>
              ch = CHR '','' \<or> ch = CHR ''.'' \<or> ch = CHR ''<'' \<or> ch = CHR ''='' \<or>
              ch = CHR ''>'' \<or> ch = CHR ''^'' \<or> ch = CHR ''|''
        then Fall (s\<lparr>ignorenl := (paren s = 0)\<rparr>)
      else if ch = CHR ''+''
        then (let s1 = s\<lparr>ignorenl := False\<rparr>
              in Fall (if paren s1 = 0 then s1\<lparr>m := mPlus\<rparr> else s1))
      else if ch = CHR ''-''
        then (let s1 = s\<lparr>ignorenl := False\<rparr>
              in Fall (if paren s1 = 0 then s1\<lparr>m := mMinus\<rparr> else s1))
      else if ch \<le> SPACE then Cont s
      else Fall (s\<lparr>ignorenl := False\<rparr>))"

text \<open>The whole \<^verbatim>\<open>switch m\<close>, for the byte \<open>ch\<close> at index \<open>i\<close> of the line.\<close>

definition switch_mode :: "nat \<Rightarrow> char \<Rightarrow> scan \<Rightarrow> step" where
  "switch_mode i ch s =
     (case m s of
        mPlus \<Rightarrow>
          (if ch = CHR ''+'' then Fall (s\<lparr>m := mNormal\<rparr>)
           else if ch = CHR ''-'' then Fall (s\<lparr>m := mMinus\<rparr>)
           else (let s1 = s\<lparr>m := mNormal, ignorenl := True\<rparr>
                 in if ch \<le> SPACE then Cont s1 else case_normal ch s1))
      | mMinus \<Rightarrow>
          (if ch = CHR ''+'' then Fall (s\<lparr>m := mPlus\<rparr>)
           else if ch = CHR ''-'' then Fall (s\<lparr>m := mNormal\<rparr>)
           else (let s1 = s\<lparr>m := mNormal, ignorenl := True\<rparr>
                 in if ch \<le> SPACE then Cont s1 else case_normal ch s1))
      | mNormal \<Rightarrow> case_normal ch s
      | mRune \<Rightarrow>
          (if ch = BACKSLASH then Fall (s\<lparr>m := mRuneEscape\<rparr>)
           else if ch = SQUOTE then Fall (s\<lparr>m := mNormal\<rparr>)
           else if ch < SPACE then Ret (invalidChar i ch ''rune'' s)
           else Fall s)
      | mRuneEscape \<Rightarrow>
          (if ch < SPACE then Ret (invalidChar i ch ''rune'' s)
           else Fall (s\<lparr>m := mRune\<rparr>))
      | mString \<Rightarrow>
          (if ch = BACKSLASH then Fall (s\<lparr>m := mStringEscape\<rparr>)
           else if ch = DQUOTE then Fall (s\<lparr>m := mNormal\<rparr>)
           else if ch < SPACE then Ret (invalidChar i ch ''string'' s)
           else Fall s)
      | mStringEscape \<Rightarrow>
          (if ch < SPACE then Ret (invalidChar i ch ''string'' s)
           else Fall (s\<lparr>m := mString\<rparr>))
      | mRawString \<Rightarrow>
          (if ch = BACKTICK then Fall (s\<lparr>m := mNormal\<rparr>) else Fall s)
      | mSlash \<Rightarrow>
          (if ch = CHR ''/'' then Cont (s\<lparr>m := mLineComment\<rparr>)
           else if ch = CHR ''*'' then Cont (s\<lparr>m := mComment\<rparr>)
           else (let s1 = s\<lparr>m := mNormal\<rparr>
                 in if ch \<le> SPACE then Fall (s1\<lparr>ignorenl := True\<rparr>)
                    else Fall (foundtoken (int i - 1) s1)))
      | mHash \<Rightarrow>
          (if ch = CHR ''!''
             then (if i = 0 then Ret Panicked
                   else Cont (s\<lparr>m := mLineComment,
                                line := (line s)[i - 1 := CHR ''/'', i := CHR ''/'']\<rparr>))
           else Fall (foundtoken (int i - 1) (s\<lparr>m := mNormal\<rparr>)))
      | mLineComment \<Rightarrow> Cont s
      | mComment \<Rightarrow>
          (if ch = CHR ''*'' then Cont (s\<lparr>m := mCommentStar\<rparr>) else Cont s)
      | mCommentStar \<Rightarrow>
          (if ch = CHR ''/'' then Cont (s\<lparr>m := mNormal\<rparr>) else Cont (s\<lparr>m := mComment\<rparr>))
      | mTilde \<Rightarrow> Fall (s\<lparr>m := mNormal\<rparr>))"

text \<open>
  The body of \<^verbatim>\<open>for i, ch := range line\<close>: the switch, then, unless the switch returned
  or continued, the reset of \<open>ignorenl\<close> and the token at \<open>i\<close>.
\<close>

definition scan_char :: "nat \<Rightarrow> char \<Rightarrow> scan \<Rightarrow> step" where
  "scan_char i ch s =
     (case switch_mode i ch s of
        Ret r \<Rightarrow> Ret r
      | Cont s1 \<Rightarrow> Cont s1
      | Fall s1 \<Rightarrow>
          (let s2 = (if resetnl (paren s1) (m s1) then s1\<lparr>ignorenl := False\<rparr> else s1)
           in Fall (if ch > SPACE then foundtoken (int i) s2 else s2)))"

text \<open>
  The loop over the indices of the line. \<^verbatim>\<open>range\<close> fixes the length when the loop
  starts and reads \<open>ch\<close> from the slice at each iteration.
\<close>

fun scan_range :: "nat list \<Rightarrow> scan \<Rightarrow> outcome + scan" where
  "scan_range [] s = Inr s"
| "scan_range (i # is) s =
     (case scan_char i (line s ! i) s of
        Ret r \<Rightarrow> Inl r
      | Cont s1 \<Rightarrow> scan_range is s1
      | Fall s1 \<Rightarrow> scan_range is s1)"

definition scan_line :: "scan \<Rightarrow> outcome + scan" where
  "scan_line s = scan_range [0 ..< length (line s)] s"

subsection \<open>The keyword at the end of the line\<close>

text \<open>
  Modelled from the spec: the reserved-word table \<^verbatim>\<open>mt.Lookup\<close> of package
  \<^verbatim>\<open>gomacro/token\<close> and the token type of \<^verbatim>\<open>go/token\<close> are not in the source
  under verification. The spec gives the classification as one of: ordinary identifier,
  statement-terminal keyword (break, continue, fallthrough, return), other reserved
  keyword. The table itself is a parameter \<open>lookup\<close> of every function that uses it.
\<close>

datatype token = IDENT | BREAK | CONTINUE | FALLTHROUGH | RETURN | KEYWORD

text \<open>
  The first loop of \<^verbatim>\<open>lastIsKeywordIgnoresNl\<close>, with \<open>k = i + 1\<close>: \<open>None\<close> is its
  \<^verbatim>\<open>return false\<close>, \<open>Some e\<close> the value of \<^verbatim>\<open>end\<close> when the loop is left.
\<close>

fun find_end :: "char list \<Rightarrow> nat \<Rightarrow> nat option" where
  "find_end l 0 = Some 0"
| "find_end l (Suc i) =
     (let ch = l ! i
      in if ch \<le> SPACE then find_end l i
         else if ch \<ge> CHR ''a'' \<and> ch \<le> CHR ''z'' then Some (i + 1)
         else None)"

text \<open>The second loop, with \<open>k = i + 1\<close>: the value of \<^verbatim>\<open>start\<close> when the loop is left.\<close>

fun find_start :: "char list \<Rightarrow> nat \<Rightarrow> nat" where
  "find_start l 0 = 0"
| "find_start l (Suc i) =
     (let ch = l ! i
      in if ch < CHR ''a'' \<or> ch > CHR ''z'' then i + 1
         else find_start l i)"

definition lastIsKeywordIgnoresNl :: "(string \<Rightarrow> token) \<Rightarrow> char list \<Rightarrow> int \<Rightarrow> int \<Rightarrow> bool" where
  "lastIsKeywordIgnoresNl lookup l0 first' last' =
     (let l1 = (if last' \<ge> 0 \<and> last' < int (length l0) then take (nat (last' + 1)) l0 else l0);
          l2 = (if first' \<ge> 0 \<and> first' \<le> int (length l1) then drop (nat first') l1 else l1);
          n = length l2
      in case find_end l2 n of
           None \<Rightarrow> False
         | Some e \<Rightarrow>
             (let start = find_start l2 e;
                  str = drop start (take e l2);
                  tok = lookup str
              in tok \<noteq> IDENT \<and> tok \<noteq> BREAK \<and> tok \<noteq> CONTINUE \<and>
                 tok \<noteq> FALLTHROUGH \<and> tok \<noteq> RETURN))"

subsection \<open>The reader and the writer\<close>

text \<open>
  The \<^verbatim>\<open>*bufio.Reader\<close>: the bytes still to come, the error the underlying stream gives
  once they are used up (\<open>EOF\<close> for a finite input), and the number of calls of
  \<^verbatim>\<open>ReadBytes\<close> made so far. \<^verbatim>\<open>ReadBytes('\n')\<close> returns the bytes up to and including the
  first newline, or else all the bytes left together with the error.
\<close>

record reader =
  pending :: "char list"
  failure :: error
  calls :: nat

definition ReadBytes :: "reader \<Rightarrow> char list \<times> error option \<times> reader" where
  "ReadBytes rd =
     (if NL \<in> set (pending rd)
      then (takeWhile (\<lambda>c. c \<noteq> NL) (pending rd) @ [NL], None,
            rd\<lparr>pending := tl (dropWhile (\<lambda>c. c \<noteq> NL) (pending rd)), calls := calls rd + 1\<rparr>)
      else (pending rd, Some (failure rd), rd\<lparr>pending := [], calls := calls rd + 1\<rparr>))"

text \<open>\<^verbatim>\<open>bytes.Replace(line, paragraph_separator_bytes, nl_bytes, -1)\<close>.\<close>

fun replace_psep :: "char list \<Rightarrow> char list" where
  "replace_psep (a # b # c # cs) =
     (if a = CHR 0xE2 \<and> b = CHR 0x80 \<and> c = CHR 0xA9 then NL # replace_psep cs
      else a # replace_psep (b # c # cs))"
| "replace_psep cs = cs"

definition dots :: string where
  "dots = ''. . . . . . . . . . . . . . . . ''"

function printDots :: "string \<Rightarrow> int \<Rightarrow> string" where
  "printDots out count =
     (if count \<ge> 32 then printDots (out @ dots) (count - 32)
      else if count > 0 then out @ take (nat count) dots
      else out)"
  by pat_completeness auto
termination
  by (relation "measure (\<lambda>(out, count). nat count)") auto

subsection \<open>The loop over the lines\<close>

text \<open>
  How one iteration of the outer \<^verbatim>\<open>for\<close> ends: the function is left (by a return in
  the scan, or by \<^verbatim>\<open>break\<close> and the code after the loop), or the loop goes round again.
\<close>

datatype iteration =
    Stop outcome string
  | Again scan string

definition loop_body ::
  "(string \<Rightarrow> token) \<Rightarrow> bool \<Rightarrow> bool \<Rightarrow> char list \<Rightarrow> error option \<Rightarrow> scan \<Rightarrow> string \<Rightarrow> iteration" where
  "loop_body lookup optPrompt optAllComments raw err s out =
     (case scan_line (s\<lparr>line := replace_psep raw\<rparr>) of
        Inl r \<Rightarrow> Stop r out
      | Inr s1 \<Rightarrow>
          (let s2 = s1\<lparr>buf := buf s1 @ line s1\<rparr>;
               s3 = (if m s2 = mLineComment then s2\<lparr>m := mNormal\<rparr> else s2)
           in case err of
                Some e \<Rightarrow>
                  Stop (Returned (buf s3) (firstToken s3)
                          (Some (if e = EOF \<and> paren s3 > 0 then UnexpectedEOF else e))) out
              | None \<Rightarrow>
                  if paren s3 \<le> 0 \<and> \<not> ignorenl s3 \<and> m s3 = mNormal \<and>
                     (firstToken s3 \<ge> 0 \<or> \<not> optAllComments) \<and>
                     \<not> (firstToken s3 \<ge> 0 \<and>
                        lastIsKeywordIgnoresNl lookup (line s3) (firstToken s3) (lastToken s3))
                  then Stop (Returned (buf s3) (firstToken s3) None) out
                  else
                    (let s4 = (if paren s3 \<le> 0 \<and> \<not> ignorenl s3 \<and> m s3 = mNormal \<and>
                                  (firstToken s3 \<ge> 0 \<or> \<not> optAllComments)
                               then s3\<lparr>ignorenl := True\<rparr> else s3);
                         s5 = (if m s4 = mPlus \<or> m s4 = mMinus then s4\<lparr>m := mNormal\<rparr> else s4)
                     in Again s5 (if optPrompt then printDots out (4 + 2 * paren s5) else out))))"

function read_loop ::
  "(string \<Rightarrow> token) \<Rightarrow> bool \<Rightarrow> bool \<Rightarrow> scan \<Rightarrow> string \<Rightarrow> reader \<Rightarrow> outcome \<times> string \<times> reader" where
  "read_loop lookup optPrompt optAllComments s out rd =
     (case ReadBytes rd of
        (raw, err, rd1) \<Rightarrow>
          (case loop_body lookup optPrompt optAllComments raw err s out of
             Stop r out1 \<Rightarrow> (r, out1, rd1)
           | Again s1 out1 \<Rightarrow> read_loop lookup optPrompt optAllComments s1 out1 rd1))"
  by pat_completeness auto
termination
proof (relation "measure (\<lambda>(lookup, optPrompt, optAllComments, s, out, rd). length (pending rd))",
       goal_cases)
  case 1
  show ?case by simp
next
  case (2 lookup optPrompt optAllComments s out rd raw y err rd1 s1 out1)
  from 2 have rb: "ReadBytes rd = (raw, err, rd1)"
    by simp
  from 2 have "err = None"
    by (auto simp: loop_body_def Let_def split: sum.splits option.splits if_splits)
  with rb have nl: "NL \<in> set (pending rd)"
    and rd1: "pending rd1 = tl (dropWhile (\<lambda>c. c \<noteq> NL) (pending rd))"
    by (auto simp: ReadBytes_def split: if_splits)
  from nl have "dropWhile (\<lambda>c. c \<noteq> NL) (pending rd) \<noteq> []"
    by simp
  then have "length (tl (dropWhile (\<lambda>c. c \<noteq> NL) (pending rd)))
             < length (dropWhile (\<lambda>c. c \<noteq> NL) (pending rd))"
    by simp
  also have "\<dots> \<le> length (pending rd)"
    by (rule length_dropWhile_le)
  finally show ?case
    using rd1 by simp
qed

declare read_loop.simps [simp del]
declare printDots.simps [simp del]

subsection \<open>ReadMultiline\<close>

definition ReadOptShowPrompt :: int where "ReadOptShowPrompt = 1"
definition ReadOptCollectAllComments :: int where "ReadOptCollectAllComments = 2"

definition initial :: scan where
  "initial = \<lparr>m = mNormal, paren = 0, ignorenl = False, firstToken = - 1, lastToken = - 1,
              line = [], buf = []\<rparr>"

definition ReadMultiline ::
  "(string \<Rightarrow> token) \<Rightarrow> reader \<Rightarrow> int \<Rightarrow> string \<Rightarrow> string \<Rightarrow> outcome \<times> string \<times> reader" where
  "ReadMultiline lookup rd opts out prompt =
     (let optPrompt = (and opts ReadOptShowPrompt \<noteq> 0);
          optAllComments = (and opts ReadOptCollectAllComments \<noteq> 0)
      in read_loop lookup optPrompt optAllComments initial
           (if optPrompt then out @ prompt else out) rd)"

subsection \<open>A reserved-word table and a finite input\<close>

text \<open>
  Modelled from the spec: \<^verbatim>\<open>mt.Lookup\<close> is not in the source under verification. This
  instance of the table is the one the examples are evaluated with: the four
  statement-terminal keywords, the reserved words the spec names as expecting a following
  clause (\<^verbatim>\<open>if\<close>, \<^verbatim>\<open>else\<close>, \<^verbatim>\<open>for\<close>, \<^verbatim>\<open>func\<close>), and every other word an
  ordinary identifier.
\<close>

definition keyword_table :: "string \<Rightarrow> token" where
  "keyword_table str =
     (if str = ''break'' then BREAK
      else if str = ''continue'' then CONTINUE
      else if str = ''fallthrough'' then FALLTHROUGH
      else if str = ''return'' then RETURN
      else if str = ''if'' \<or> str = ''else'' \<or> str = ''for'' \<or> str = ''func'' then KEYWORD
      else IDENT)"

text \<open>A reader over the bytes \<open>cs\<close> that ends with \<open>EOF\<close>, before its first read.\<close>

definition input :: "char list \<Rightarrow> reader" where
  "input cs = \<lparr>pending = cs, failure = EOF, calls = 0\<rparr>"

text \<open>What a step leaves alone: the buffer and the length of the line.\<close>

definition frame :: "scan \<Rightarrow> step \<Rightarrow> bool" where
  "frame s st =
     (case st of
        Ret r \<Rightarrow> True
      | Cont s1 \<Rightarrow> buf s1 = buf s \<and> length (line s1) = length (line s)
      | Fall s1 \<Rightarrow> buf s1 = buf s \<and> length (line s1) = length (line s))"

section \<open>Properties\<close>

subsection \<open>Auxiliary facts\<close>

lemma scan_range_append:
  "scan_range (xs @ ys) s =
     (case scan_range xs s of Inl r \<Rightarrow> Inl r | Inr s1 \<Rightarrow> scan_range ys s1)"
  by (induction xs arbitrary: s) (auto split: step.splits)

lemma foundtoken_fields [simp]:
  "m (foundtoken pos s) = m s" "paren (foundtoken pos s) = paren s"
  "ignorenl (foundtoken pos s) = ignorenl s" "line (foundtoken pos s) = line s"
  "buf (foundtoken pos s) = buf s"
  "lastToken (foundtoken pos s) = int (length (buf s)) + pos"
  "firstToken (foundtoken pos s) =
     (if firstToken s < 0 then int (length (buf s)) + pos else firstToken s)"
  by (simp_all add: foundtoken_def Let_def)

lemma case_normal_frame: "frame s (case_normal ch s)"
  by (simp add: case_normal_def frame_def Let_def)


lemma frame_eq:
  "buf s' = buf s \<Longrightarrow> length (line s') = length (line s) \<Longrightarrow> frame s' st = frame s st"
  by (simp add: frame_def split: step.splits)

lemma switch_mode_frame: "frame s (switch_mode i ch s)"
proof (cases "m s")
  case mPlus
  then show ?thesis
    using case_normal_frame [of "s\<lparr>m := mNormal, ignorenl := True\<rparr>" ch]
    by (simp add: switch_mode_def Let_def frame_eq [of "s\<lparr>m := mNormal, ignorenl := True\<rparr>" s])
       (simp add: frame_def)
next
  case mMinus
  then show ?thesis
    using case_normal_frame [of "s\<lparr>m := mNormal, ignorenl := True\<rparr>" ch]
    by (simp add: switch_mode_def Let_def frame_eq [of "s\<lparr>m := mNormal, ignorenl := True\<rparr>" s])
       (simp add: frame_def)
next
  case mNormal
  then show ?thesis
    using case_normal_frame [of s ch] by (simp add: switch_mode_def)
qed (simp_all add: switch_mode_def frame_def Let_def)

lemma scan_char_frame: "frame s (scan_char i ch s)"
  using switch_mode_frame [of s i ch]
  by (simp add: scan_char_def frame_def Let_def split: step.splits)

lemma scan_range_frame:
  "scan_range is s = Inr s1 \<Longrightarrow> buf s1 = buf s \<and> length (line s1) = length (line s)"
proof (induction "is" arbitrary: s)
  case Nil
  then show ?case by simp
next
  case (Cons i "is")
  show ?case
  proof (cases "scan_char i (line s ! i) s")
    case (Ret r)
    with Cons.prems show ?thesis by simp
  next
    case (Cont t)
    with Cons.prems have "scan_range is t = Inr s1" by simp
    from Cons.IH [OF this] scan_char_frame [of s i "line s ! i"] Cont
    show ?thesis by (simp add: frame_def)
  next
    case (Fall t)
    with Cons.prems have "scan_range is t = Inr s1" by simp
    from Cons.IH [OF this] scan_char_frame [of s i "line s ! i"] Fall
    show ?thesis by (simp add: frame_def)
  qed
qed

lemma read_loop_Stop:
  "ReadBytes rd = (raw, err, rd1) \<Longrightarrow>
   loop_body lookup optPrompt optAllComments raw err s out = Stop r out1 \<Longrightarrow>
   read_loop lookup optPrompt optAllComments s out rd = (r, out1, rd1)"
  by (simp add: read_loop.simps)

lemma read_loop_Again:
  "ReadBytes rd = (raw, err, rd1) \<Longrightarrow>
   loop_body lookup optPrompt optAllComments raw err s out = Again s1 out1 \<Longrightarrow>
   read_loop lookup optPrompt optAllComments s out rd =
   read_loop lookup optPrompt optAllComments s1 out1 rd1"
  by (simp add: read_loop.simps)

lemma switch_mode_literal:
  assumes md: "m s \<in> {mRune, mString, mRuneEscape, mStringEscape}" and ch: "ch < SPACE"
  shows "switch_mode i ch s =
           Ret (invalidChar i ch (if m s \<in> {mRune, mRuneEscape} then ''rune'' else ''string'') s)"
proof -
  from ch have ne: "ch \<noteq> BACKSLASH" "ch \<noteq> SQUOTE" "ch \<noteq> DQUOTE"
    by auto
  from md consider "m s = mRune" | "m s = mString" | "m s = mRuneEscape" | "m s = mStringEscape"
    by blast
  then show ?thesis
  proof cases
    case 1
    with ch ne show ?thesis by (simp add: switch_mode_def)
  next
    case 2
    with ch ne show ?thesis by (simp add: switch_mode_def)
  next
    case 3
    with ch show ?thesis by (simp add: switch_mode_def)
  next
    case 4
    with ch show ?thesis by (simp add: switch_mode_def)
  qed
qed

lemma ReadMultiline_plain:
  "ReadMultiline lookup rd 0 out prompt = read_loop lookup False False initial out rd"
  by (simp add: ReadMultiline_def ReadOptShowPrompt_def ReadOptCollectAllComments_def)

lemma loop_body_error:
  assumes "scan_line (s\<lparr>line := replace_psep raw\<rparr>) = Inr s1"
  shows "loop_body lookup optPrompt optAllComments raw (Some e) s out =
           Stop (Returned (buf s @ line s1) (firstToken s1)
                   (Some (if e = EOF \<and> paren s1 > 0 then UnexpectedEOF else e))) out"
proof -
  from assms have "buf s1 = buf s"
    using scan_range_frame [of "[0 ..< length (replace_psep raw)]" "s\<lparr>line := replace_psep raw\<rparr>" s1]
    by (simp add: scan_line_def)
  with assms show ?thesis
    by (simp add: loop_body_def Let_def)
qed

lemma loop_body_complete:
  assumes "scan_line (s\<lparr>line := replace_psep raw\<rparr>) = Inr s1"
    and "paren s1 \<le> 0" and "\<not> ignorenl s1" and "m s1 = mNormal \<or> m s1 = mLineComment"
    and "0 \<le> firstToken s1"
    and "\<not> lastIsKeywordIgnoresNl lookup (line s1) (firstToken s1) (lastToken s1)"
  shows "loop_body lookup optPrompt optAllComments raw None s out =
           Stop (Returned (buf s @ line s1) (firstToken s1) None) out"
proof -
  from assms(1) have "buf s1 = buf s"
    using scan_range_frame [of "[0 ..< length (replace_psep raw)]" "s\<lparr>line := replace_psep raw\<rparr>" s1]
    by (simp add: scan_line_def)
  with assms show ?thesis
    by (auto simp: loop_body_def Let_def)
qed

lemma ReadMultiline_all_comments:
  "ReadMultiline lookup rd ReadOptCollectAllComments out prompt =
     read_loop lookup False True initial out rd"
  by (simp add: ReadMultiline_def ReadOptShowPrompt_def ReadOptCollectAllComments_def)

subsection \<open>C1: when \<open>ignorenl\<close> is cleared\<close>

text \<open>
  C1, as stated, fails in both directions. After the \<^verbatim>\<open>=\<close> of \<^verbatim>\<open>a =\<close> the depth is 0 and
  the mode is Normal, and the flag is set, not cleared (so the line \<^verbatim>\<open>a =\<close> is continued
  by the next line); and a \<^verbatim>\<open>(\<close> read while the flag is set clears it, although the depth
  is then positive.
\<close>

theorem flag_set_at_depth_zero_cleared_inside_brackets:
  "scan_line (initial\<lparr>line := ''a =''\<rparr>) =
     Inr \<lparr>m = mNormal, paren = 0, ignorenl = True, firstToken = 0, lastToken = 2,
          line = ''a ='', buf = []\<rparr> \<and>
   scan_char 3 (CHR ''('')
       \<lparr>m = mNormal, paren = 0, ignorenl = True, firstToken = 0, lastToken = 2,
        line = ''a =('', buf = []\<rparr> =
     Fall \<lparr>m = mNormal, paren = 1, ignorenl = False, firstToken = 0, lastToken = 3,
           line = ''a =('', buf = []\<rparr> \<and>
   fst (ReadMultiline keyword_table (input ''a =\<newline>b\<newline>'') 0 [] []) =
     Returned ''a =\<newline>b\<newline>'' 0 None"
  by code_simp

text \<open>
  C1, amended: for every byte for which the switch is left without \<^verbatim>\<open>return\<close> or
  \<^verbatim>\<open>continue\<close>, after the mode transition and the paren update, \<open>ignorenl\<close> is cleared
  if and only if the depth is not 0 or the mode is one of PlusRun, MinusRun, Rune, String,
  RuneEscape, StringEscape, RawString, Tilde; when the depth is 0 and the mode is one of
  Normal, Slash, Hash, LineComment, Comment, CommentStar it keeps the value the transition
  gave it. A byte that ends in \<^verbatim>\<open>continue\<close> (white space in Normal mode, the first byte of
  \<^verbatim>\<open>/\<close> or \<^verbatim>\<open>#\<close>, the bytes of a comment) does not reach the rule at all. Hence after
  every byte that reaches the rule, the flag is clear whenever the depth is not 0 or the
  mode is one of those eight.
\<close>

theorem ignorenl_reset_rule:
  "(switch_mode i ch s = Fall s1 \<longrightarrow>
      scan_char i ch s =
        Fall ((if ch > SPACE then foundtoken (int i) else id)
                (s1\<lparr>ignorenl :=
                       ignorenl s1 \<and>
                       \<not> (paren s1 \<noteq> 0 \<or>
                          m s1 \<in> {mPlus, mMinus, mRune, mString, mRuneEscape, mStringEscape,
                                  mRawString, mTilde})\<rparr>))) \<and>
   (switch_mode i ch s = Cont s1 \<longrightarrow> scan_char i ch s = Cont s1) \<and>
   (scan_char i ch s = Fall s2 \<and>
    (paren s2 \<noteq> 0 \<or>
     m s2 \<in> {mPlus, mMinus, mRune, mString, mRuneEscape, mStringEscape, mRawString, mTilde}) \<longrightarrow>
    \<not> ignorenl s2)"
proof (intro conjI impI)
  assume "switch_mode i ch s = Fall s1"
  then show "scan_char i ch s =
        Fall ((if ch > SPACE then foundtoken (int i) else id)
                (s1\<lparr>ignorenl :=
                       ignorenl s1 \<and>
                       \<not> (paren s1 \<noteq> 0 \<or>
                          m s1 \<in> {mPlus, mMinus, mRune, mString, mRuneEscape, mStringEscape,
                                  mRawString, mTilde})\<rparr>))"
    by (cases "m s1") (auto simp: scan_char_def resetnl_def Let_def)
next
  assume "switch_mode i ch s = Cont s1"
  then show "scan_char i ch s = Cont s1"
    by (simp add: scan_char_def)
next
  assume a: "scan_char i ch s = Fall s2 \<and>
    (paren s2 \<noteq> 0 \<or>
     m s2 \<in> {mPlus, mMinus, mRune, mString, mRuneEscape, mStringEscape, mRawString, mTilde})"
  then obtain t where t: "switch_mode i ch s = Fall t"
    by (auto simp: scan_char_def split: step.splits)
  with a have s2: "s2 = (if ch > SPACE then foundtoken (int i) else id)
                     (if resetnl (paren t) (m t) then t\<lparr>ignorenl := False\<rparr> else t)"
    by (auto simp: scan_char_def Let_def)
  then have "paren s2 = paren t" "m s2 = m t"
    by auto
  with a have "resetnl (paren t) (m t)"
    by (auto simp: resetnl_def)
  with s2 show "\<not> ignorenl s2"
    by auto
qed

theorem ignorenl_reset_rule_witness:
  "switch_mode 0 (CHR ''('') (initial\<lparr>ignorenl := True, line := ''(''\<rparr>) =
     Fall (initial\<lparr>ignorenl := True, line := ''('', paren := 1\<rparr>) \<and>
   scan_char 0 (CHR ''('') (initial\<lparr>ignorenl := True, line := ''(''\<rparr>) =
     Fall (initial\<lparr>ignorenl := False, line := ''('', paren := 1, firstToken := 0, lastToken := 0\<rparr>) \<and>
   switch_mode 0 (CHR ''/'') (initial\<lparr>ignorenl := True, paren := - 1, line := ''/''\<rparr>) =
     Cont (initial\<lparr>ignorenl := True, paren := - 1, line := ''/'', m := mSlash\<rparr>) \<and>
   scan_char 0 (CHR ''/'') (initial\<lparr>ignorenl := True, paren := - 1, line := ''/''\<rparr>) =
     Cont (initial\<lparr>ignorenl := True, paren := - 1, line := ''/'', m := mSlash\<rparr>) \<and>
   paren (initial\<lparr>ignorenl := False, line := ''('', paren := 1, firstToken := 0, lastToken := 0\<rparr>) \<noteq> 0 \<and>
   \<not> ignorenl (initial\<lparr>ignorenl := False, line := ''('', paren := 1, firstToken := 0, lastToken := 0\<rparr>)"
proof -
  let ?s = "initial\<lparr>ignorenl := True, line := ''(''\<rparr>"
  let ?s1 = "initial\<lparr>ignorenl := True, line := ''('', paren := 1\<rparr>"
  let ?s2 = "initial\<lparr>ignorenl := False, line := ''('', paren := 1, firstToken := 0, lastToken := 0\<rparr>"
  let ?t = "initial\<lparr>ignorenl := True, paren := - 1, line := ''/''\<rparr>"
  let ?t1 = "initial\<lparr>ignorenl := True, paren := - 1, line := ''/'', m := mSlash\<rparr>"
  have a: "switch_mode 0 (CHR ''('') ?s = Fall ?s1"
    by code_simp
  have b: "switch_mode 0 (CHR ''/'') ?t = Cont ?t1"
    by code_simp
  note r1 = ignorenl_reset_rule [where i = 0 and ch = "CHR ''(''" and s = ?s and ?s1.0 = ?s1
      and ?s2.0 = ?s2]
  note r2 = ignorenl_reset_rule [where i = 0 and ch = "CHR ''/''" and s = ?t and ?s1.0 = ?t1,
      THEN conjunct2, THEN conjunct1, rule_format, OF b]
  have c: "scan_char 0 (CHR ''('') ?s = Fall ?s2"
    using r1 [THEN conjunct1, rule_format, OF a] by (simp add: initial_def foundtoken_def)
  have d: "\<not> ignorenl ?s2"
    using r1 [THEN conjunct2, THEN conjunct2, rule_format] c by (simp add: initial_def)
  show ?thesis
    using a b c d r2 by (simp add: initial_def)
qed

subsection \<open>C2: a control byte inside a rune or string literal\<close>

text \<open>
  C2, as stated, fails: the text returned with the invalid-character error is
  \<^verbatim>\<open>append(buf, line[:i]...)\<close>, which stops before the offending byte. For the input
  \<^verbatim>\<open>"ab\<close> followed by a newline, the returned text has the three bytes \<^verbatim>\<open>"ab\<close>, not the
  four bytes up to and including the newline.
\<close>

theorem partial_excludes_offending_byte:
  "ReadMultiline keyword_table (input (DQUOTE # ''ab\<newline>c'')) 0 [] [] =
     (Returned (DQUOTE # ''ab'') 0 (Some (UnexpectedChar NL ''string'')), [],
      \<lparr>pending = ''c'', failure = EOF, calls = 1\<rparr>) \<and>
   length (DQUOTE # ''ab'') = 3 \<and> length (DQUOTE # ''ab\<newline>'') = 4"
  by code_simp

text \<open>
  C2, amended: at any iteration of the loop over the lines, when the scan of the line just
  read (after the replacement of paragraph separators) reaches index \<open>i\<close> in one of the
  modes Rune, String, RuneEscape, StringEscape and the byte there is below space, the
  function returns the invalid-character error for that byte, with the text accumulated
  before this line followed by the bytes of the line before index \<open>i\<close> (the offending
  byte excluded), and with the first-token offset as it was just before that byte.
\<close>

theorem invalid_char_partial:
  assumes rb: "ReadBytes rd = (raw, err, rd1)"
    and i: "i < length (replace_psep raw)"
    and pre: "scan_range [0 ..< i] (s\<lparr>line := replace_psep raw\<rparr>) = Inr s1"
    and md: "m s1 \<in> {mRune, mString, mRuneEscape, mStringEscape}"
    and ch: "line s1 ! i < SPACE"
  shows "read_loop lookup optPrompt optAllComments s out rd =
           (Returned (buf s @ take i (line s1)) (firstToken s1)
              (Some (UnexpectedChar (line s1 ! i)
                       (if m s1 \<in> {mRune, mRuneEscape} then ''rune'' else ''string''))),
            out, rd1)"
proof -
  let ?l = "replace_psep raw"
  let ?r = "invalidChar i (line s1 ! i) (if m s1 \<in> {mRune, mRuneEscape} then ''rune'' else ''string'') s1"
  have fr: "buf s1 = buf s" "length (line s1) = length ?l"
    using scan_range_frame [OF pre] by simp_all
  from i have split: "[0 ..< length ?l] = [0 ..< i] @ i # [Suc i ..< length ?l]"
    using upt_add_eq_append [of 0 i "length ?l - i"] upt_conv_Cons [of i "length ?l"] by simp
  have "scan_char i (line s1 ! i) s1 = Ret ?r"
    using switch_mode_literal [OF md ch] by (simp add: scan_char_def)
  then have "scan_line (s\<lparr>line := ?l\<rparr>) = Inl ?r"
    using pre split by (simp add: scan_line_def scan_range_append)
  then have "loop_body lookup optPrompt optAllComments raw err s out = Stop ?r out"
    by (simp add: loop_body_def)
  with rb have "read_loop lookup optPrompt optAllComments s out rd = (?r, out, rd1)"
    by (rule read_loop_Stop)
  then show ?thesis
    using fr by (simp add: invalidChar_def)
qed

theorem invalid_char_partial_witness:
  "ReadBytes (input (DQUOTE # ''ab\<newline>c'')) =
     (DQUOTE # ''ab\<newline>'', None, \<lparr>pending = ''c'', failure = EOF, calls = 1\<rparr>) \<and>
   3 < length (replace_psep (DQUOTE # ''ab\<newline>'')) \<and>
   scan_range [0 ..< 3] (initial\<lparr>line := replace_psep (DQUOTE # ''ab\<newline>'')\<rparr>) =
     Inr (initial\<lparr>m := mString, firstToken := 0, lastToken := 2, line := DQUOTE # ''ab\<newline>''\<rparr>) \<and>
   mString \<in> {mRune, mString, mRuneEscape, mStringEscape} \<and>
   (DQUOTE # ''ab\<newline>'') ! 3 < SPACE \<and>
   read_loop keyword_table False False initial [] (input (DQUOTE # ''ab\<newline>c'')) =
     (Returned (DQUOTE # ''ab'') 0 (Some (UnexpectedChar NL ''string'')), [],
      \<lparr>pending = ''c'', failure = EOF, calls = 1\<rparr>)"
proof -
  let ?s1 = "initial\<lparr>m := mString, firstToken := 0, lastToken := 2, line := DQUOTE # ''ab\<newline>''\<rparr>"
  have rb: "ReadBytes (input (DQUOTE # ''ab\<newline>c'')) =
     (DQUOTE # ''ab\<newline>'', None, \<lparr>pending = ''c'', failure = EOF, calls = 1\<rparr>)"
    by code_simp
  have i: "3 < length (replace_psep (DQUOTE # ''ab\<newline>''))"
    by code_simp
  have pre: "scan_range [0 ..< 3] (initial\<lparr>line := replace_psep (DQUOTE # ''ab\<newline>'')\<rparr>) = Inr ?s1"
    by code_simp
  have md: "m ?s1 \<in> {mRune, mString, mRuneEscape, mStringEscape}"
    by simp
  have ch: "line ?s1 ! 3 < SPACE"
    by simp
  show ?thesis
    using rb i pre invalid_char_partial [OF rb i pre md ch, of keyword_table False False "[]"]
    by (simp add: initial_def)
qed

subsection \<open>C3: a lone slash\<close>

text \<open>
  What the step does in mode Slash on a byte, at index \<open>i \<ge> 1\<close>, that is neither \<^verbatim>\<open>/\<close>
  nor \<^verbatim>\<open>*\<close>: the mode returns to Normal and the depth is unchanged. If the byte is white
  space, \<open>ignorenl\<close> is set when the depth is 0 (and cleared otherwise) and
  \<^verbatim>\<open>foundtoken\<close> is not called: both token offsets stay as they were. If it is not white
  space, the pending \<^verbatim>\<open>/\<close> at \<open>i - 1\<close> is marked as a found token (the first one if there
  was none), then the byte itself is marked as the last token.
\<close>

lemma slash_resolution:
  assumes "m s = mSlash" and "ch \<noteq> CHR ''/''" and "ch \<noteq> CHR ''*''" and "0 < i"
  shows "scan_char i ch s =
           Fall (if ch \<le> SPACE
                 then s\<lparr>m := mNormal, ignorenl := (paren s = 0)\<rparr>
                 else s\<lparr>m := mNormal, ignorenl := (ignorenl s \<and> paren s = 0),
                        firstToken := (if firstToken s < 0 then int (length (buf s)) + int i - 1
                                       else firstToken s),
                        lastToken := int (length (buf s)) + int i\<rparr>)"
  using assms
  by (auto simp: scan_char_def switch_mode_def resetnl_def foundtoken_def Let_def)

lemma slash_resolution_example:
  "m (initial\<lparr>m := mSlash, line := ''/ 2''\<rparr>) = mSlash \<and> SPACE \<noteq> CHR ''/'' \<and> SPACE \<noteq> CHR ''*'' \<and>
   (0::nat) < 1 \<and>
   scan_char 1 SPACE (initial\<lparr>m := mSlash, line := ''/ 2''\<rparr>) =
     Fall (initial\<lparr>ignorenl := True, line := ''/ 2''\<rparr>) \<and>
   m (initial\<lparr>m := mSlash, line := ''/2''\<rparr>) = mSlash \<and> CHR ''2'' \<noteq> CHR ''/'' \<and> CHR ''2'' \<noteq> CHR ''*'' \<and>
   scan_char 1 (CHR ''2'') (initial\<lparr>m := mSlash, line := ''/2''\<rparr>) =
     Fall (initial\<lparr>firstToken := 0, lastToken := 1, line := ''/2''\<rparr>)"
  using slash_resolution [of "initial\<lparr>m := mSlash, line := ''/ 2''\<rparr>" SPACE 1]
    slash_resolution [of "initial\<lparr>m := mSlash, line := ''/2''\<rparr>" "CHR ''2''" 1]
  by (simp add: initial_def)

text \<open>
  C3, evaluated on the code: the mode returns to Normal and a white-space byte after the
  \<^verbatim>\<open>/\<close> sets \<open>ignorenl\<close>, as the claim says, but in that case the \<^verbatim>\<open>/\<close> is never marked
  as a found token. For the input \<^verbatim>\<open>/ 2\<close>, whose first non-blank byte is a \<^verbatim>\<open>/\<close> followed
  by a space, the first-token offset returned is 2, the position of the \<^verbatim>\<open>2\<close>, and not 0,
  the position of the \<^verbatim>\<open>/\<close>.
\<close>

theorem slash_before_blank_is_no_token:
  "ReadMultiline keyword_table (input ''/ 2\<newline>'') 0 [] [] =
     (Returned ''/ 2\<newline>'' 2 None, [], \<lparr>pending = [], failure = EOF, calls = 1\<rparr>) \<and>
   scan_char 1 SPACE (initial\<lparr>m := mSlash, line := ''/ 2\<newline>''\<rparr>) =
     Fall (initial\<lparr>ignorenl := True, line := ''/ 2\<newline>''\<rparr>)"
  by code_simp

subsection \<open>C4: a trailing \<^verbatim>\<open>+\<close> or \<^verbatim>\<open>-\<close>\<close>



subsection \<open>C5: a keyword at the end of the line\<close>

text \<open>
  C5, evaluated on the code: a first line \<^verbatim>\<open>if\<close> is continued by the next line, and a first
  line \<^verbatim>\<open>return\<close> is returned alone, as the claim says. But \<^verbatim>\<open>lastIsKeywordIgnoresNl\<close>
  is given the token offsets of the whole buffer and uses them to slice the last line
  only: after the line \<^verbatim>\<open> a +\<close> (first token at offset 1), the line \<^verbatim>\<open>if\<close> is cut to
  \<^verbatim>\<open>f\<close> before the lookup, and the function returns after it, although the line ends in
  the bare keyword \<^verbatim>\<open>if\<close> at depth 0 with no trailing operator.
\<close>

theorem keyword_missed_after_first_line:
  assumes "lookup ''if'' = KEYWORD" and "lookup ''return'' = RETURN" and "lookup ''f'' = IDENT"
  shows "ReadMultiline lookup \<lparr>pending = ''if\<newline>'' @ rest, failure = f, calls = 0\<rparr> 0 out prompt =
           read_loop lookup False False
             \<lparr>m = mNormal, paren = 0, ignorenl = True, firstToken = 0, lastToken = 1,
              line = ''if\<newline>'', buf = ''if\<newline>''\<rparr>
             out \<lparr>pending = rest, failure = f, calls = 1\<rparr> \<and>
         ReadMultiline lookup \<lparr>pending = ''return\<newline>'' @ rest, failure = f, calls = 0\<rparr> 0 out prompt =
           (Returned ''return\<newline>'' 0 None, out, \<lparr>pending = rest, failure = f, calls = 1\<rparr>) \<and>
         ReadMultiline lookup \<lparr>pending = '' a +\<newline>if\<newline>'' @ rest, failure = f, calls = 0\<rparr> 0 out prompt =
           (Returned '' a +\<newline>if\<newline>'' 1 None, out, \<lparr>pending = rest, failure = f, calls = 2\<rparr>)"
proof -
  let ?p = "\<lparr>m = mNormal, paren = 0, ignorenl = True, firstToken = 1, lastToken = 3,
             line = '' a +\<newline>'', buf = '' a +\<newline>''\<rparr>"
  have if1: "ReadBytes \<lparr>pending = ''if\<newline>'' @ rest, failure = f, calls = 0\<rparr> =
      (''if\<newline>'', None, \<lparr>pending = rest, failure = f, calls = 1\<rparr>)"
    by code_simp
  have if2: "scan_line \<lparr>m = mNormal, paren = 0, ignorenl = False, firstToken = - 1, lastToken = - 1,
                        line = ''if\<newline>'', buf = []\<rparr> =
      Inr \<lparr>m = mNormal, paren = 0, ignorenl = False, firstToken = 0, lastToken = 1,
           line = ''if\<newline>'', buf = []\<rparr>"
    by code_simp
  have if3: "lastIsKeywordIgnoresNl lookup ''if\<newline>'' 0 1 =
      (lookup ''if'' \<noteq> IDENT \<and> lookup ''if'' \<noteq> BREAK \<and> lookup ''if'' \<noteq> CONTINUE \<and>
       lookup ''if'' \<noteq> FALLTHROUGH \<and> lookup ''if'' \<noteq> RETURN)"
    by code_simp
  have if4: "loop_body lookup False False ''if\<newline>'' None initial out =
      Again \<lparr>m = mNormal, paren = 0, ignorenl = True, firstToken = 0, lastToken = 1,
             line = ''if\<newline>'', buf = ''if\<newline>''\<rparr> out"
    using assms(1) by (simp add: loop_body_def initial_def if2 if3)
  have ret1: "ReadBytes \<lparr>pending = ''return\<newline>'' @ rest, failure = f, calls = 0\<rparr> =
      (''return\<newline>'', None, \<lparr>pending = rest, failure = f, calls = 1\<rparr>)"
    by code_simp
  have ret2: "scan_line \<lparr>m = mNormal, paren = 0, ignorenl = False, firstToken = - 1, lastToken = - 1,
                         line = ''return\<newline>'', buf = []\<rparr> =
      Inr \<lparr>m = mNormal, paren = 0, ignorenl = False, firstToken = 0, lastToken = 5,
           line = ''return\<newline>'', buf = []\<rparr>"
    by code_simp
  have ret3: "lastIsKeywordIgnoresNl lookup ''return\<newline>'' 0 5 =
      (lookup ''return'' \<noteq> IDENT \<and> lookup ''return'' \<noteq> BREAK \<and> lookup ''return'' \<noteq> CONTINUE \<and>
       lookup ''return'' \<noteq> FALLTHROUGH \<and> lookup ''return'' \<noteq> RETURN)"
    by code_simp
  have ret4: "loop_body lookup False False ''return\<newline>'' None initial out =
      Stop (Returned ''return\<newline>'' 0 None) out"
    using assms(2) by (simp add: loop_body_def initial_def ret2 ret3)
  have two1: "ReadBytes \<lparr>pending = '' a +\<newline>if\<newline>'' @ rest, failure = f, calls = 0\<rparr> =
      ('' a +\<newline>'', None, \<lparr>pending = ''if\<newline>'' @ rest, failure = f, calls = 1\<rparr>)"
    by code_simp
  have two2: "loop_body lookup False False '' a +\<newline>'' None initial out = Again ?p out"
    by code_simp
  have two3: "ReadBytes \<lparr>pending = ''if\<newline>'' @ rest, failure = f, calls = 1\<rparr> =
      (''if\<newline>'', None, \<lparr>pending = rest, failure = f, calls = 2\<rparr>)"
    by code_simp
  have two4: "scan_line \<lparr>m = mNormal, paren = 0, ignorenl = True, firstToken = 1, lastToken = 3,
                         line = ''if\<newline>'', buf = '' a +\<newline>''\<rparr> =
      Inr \<lparr>m = mNormal, paren = 0, ignorenl = False, firstToken = 1, lastToken = 6,
           line = ''if\<newline>'', buf = '' a +\<newline>''\<rparr>"
    by code_simp
  have two5: "lastIsKeywordIgnoresNl lookup ''if\<newline>'' 1 6 =
      (lookup ''f'' \<noteq> IDENT \<and> lookup ''f'' \<noteq> BREAK \<and> lookup ''f'' \<noteq> CONTINUE \<and>
       lookup ''f'' \<noteq> FALLTHROUGH \<and> lookup ''f'' \<noteq> RETURN)"
    by code_simp
  have two6: "loop_body lookup False False ''if\<newline>'' None ?p out =
      Stop (Returned '' a +\<newline>if\<newline>'' 1 None) out"
    using assms(3) by (simp add: loop_body_def two4 two5)
  have a: "ReadMultiline lookup \<lparr>pending = ''if\<newline>'' @ rest, failure = f, calls = 0\<rparr> 0 out prompt =
           read_loop lookup False False
             \<lparr>m = mNormal, paren = 0, ignorenl = True, firstToken = 0, lastToken = 1,
              line = ''if\<newline>'', buf = ''if\<newline>''\<rparr>
             out \<lparr>pending = rest, failure = f, calls = 1\<rparr>"
    unfolding ReadMultiline_plain by (rule read_loop_Again [OF if1 if4])
  have b: "ReadMultiline lookup \<lparr>pending = ''return\<newline>'' @ rest, failure = f, calls = 0\<rparr> 0 out prompt =
           (Returned ''return\<newline>'' 0 None, out, \<lparr>pending = rest, failure = f, calls = 1\<rparr>)"
    unfolding ReadMultiline_plain by (rule read_loop_Stop [OF ret1 ret4])
  have c: "ReadMultiline lookup \<lparr>pending = '' a +\<newline>if\<newline>'' @ rest, failure = f, calls = 0\<rparr> 0 out prompt =
           (Returned '' a +\<newline>if\<newline>'' 1 None, out, \<lparr>pending = rest, failure = f, calls = 2\<rparr>)"
    unfolding ReadMultiline_plain
    by (rule trans [OF read_loop_Again [OF two1 two2] read_loop_Stop [OF two3 two6]])
  from a b c show ?thesis
    by (intro conjI)
qed

theorem keyword_missed_after_first_line_witness:
  "keyword_table ''if'' = KEYWORD \<and> keyword_table ''return'' = RETURN \<and> keyword_table ''f'' = IDENT \<and>
   ReadMultiline keyword_table (input ''if\<newline>x\<newline>'') 0 [] [] =
     (Returned ''if\<newline>x\<newline>'' 0 None, [], \<lparr>pending = [], failure = EOF, calls = 2\<rparr>) \<and>
   ReadMultiline keyword_table (input ''return\<newline>x\<newline>'') 0 [] [] =
     (Returned ''return\<newline>'' 0 None, [], \<lparr>pending = ''x\<newline>'', failure = EOF, calls = 1\<rparr>) \<and>
   ReadMultiline keyword_table (input '' a +\<newline>if\<newline>x\<newline>'') 0 [] [] =
     (Returned '' a +\<newline>if\<newline>'' 1 None, [], \<lparr>pending = ''x\<newline>'', failure = EOF, calls = 2\<rparr>)"
proof -
  have k: "keyword_table ''if'' = KEYWORD" "keyword_table ''return'' = RETURN"
    "keyword_table ''f'' = IDENT"
    by code_simp+
  have nxt: "read_loop keyword_table False False
       \<lparr>m = mNormal, paren = 0, ignorenl = True, firstToken = 0, lastToken = 1,
        line = ''if\<newline>'', buf = ''if\<newline>''\<rparr>
       [] \<lparr>pending = ''x\<newline>'', failure = EOF, calls = 1\<rparr> =
     (Returned ''if\<newline>x\<newline>'' 0 None, [], \<lparr>pending = [], failure = EOF, calls = 2\<rparr>)"
    by code_simp
  show ?thesis
    using k nxt keyword_missed_after_first_line
        [where lookup = keyword_table and rest = "''x\<newline>''" and f = EOF and out = "[]"
           and prompt = "[]"]
    by (simp add: input_def)
qed

subsection \<open>C6: an error of the reader\<close>

text \<open>
  C6: at any iteration of the loop over the lines (\<^verbatim>\<open>ReadMultiline\<close> is the loop started in
  the initial state), when \<^verbatim>\<open>ReadBytes\<close> returns an error and the scan of the bytes that came
  with it does not itself return, the function returns the text accumulated so far,
  those bytes included, the first-token offset, and the error: "unexpected EOF" in place
  of \<open>EOF\<close> when the depth is above 0, and the error of the reader unchanged in every
  other case.
\<close>

theorem eof_inside_brackets:
  assumes "ReadBytes rd = (raw, Some e, rd1)"
    and "scan_line (s\<lparr>line := replace_psep raw\<rparr>) = Inr s1"
  shows "read_loop lookup optPrompt optAllComments s out rd =
           (Returned (buf s @ line s1) (firstToken s1)
              (Some (if e = EOF \<and> paren s1 > 0 then UnexpectedEOF else e)), out, rd1)"
  using assms(1) loop_body_error [OF assms(2)] by (rule read_loop_Stop)

theorem eof_inside_brackets_witness:
  "ReadBytes (input ''foo('') = (''foo('', Some EOF, \<lparr>pending = [], failure = EOF, calls = 1\<rparr>) \<and>
   scan_line (initial\<lparr>line := replace_psep ''foo(''\<rparr>) =
     Inr (initial\<lparr>paren := 1, firstToken := 0, lastToken := 3, line := ''foo(''\<rparr>) \<and>
   read_loop keyword_table False False initial [] (input ''foo('') =
     (Returned ''foo('' 0 (Some UnexpectedEOF), [], \<lparr>pending = [], failure = EOF, calls = 1\<rparr>) \<and>
   ReadBytes \<lparr>pending = ''foo('', failure = IOError ''closed'', calls = 0\<rparr> =
     (''foo('', Some (IOError ''closed''), \<lparr>pending = [], failure = IOError ''closed'', calls = 1\<rparr>) \<and>
   read_loop keyword_table False False initial [] \<lparr>pending = ''foo('', failure = IOError ''closed'', calls = 0\<rparr> =
     (Returned ''foo('' 0 (Some (IOError ''closed'')), [],
      \<lparr>pending = [], failure = IOError ''closed'', calls = 1\<rparr>)"
proof -
  have rb: "ReadBytes (input ''foo('') =
      (''foo('', Some EOF, \<lparr>pending = [], failure = EOF, calls = 1\<rparr>)"
    by code_simp
  have rb': "ReadBytes \<lparr>pending = ''foo('', failure = IOError ''closed'', calls = 0\<rparr> =
     (''foo('', Some (IOError ''closed''), \<lparr>pending = [], failure = IOError ''closed'', calls = 1\<rparr>)"
    by code_simp
  have sc: "scan_line (initial\<lparr>line := replace_psep ''foo(''\<rparr>) =
     Inr (initial\<lparr>paren := 1, firstToken := 0, lastToken := 3, line := ''foo(''\<rparr>)"
    by code_simp
  show ?thesis
    using rb rb' sc
      eof_inside_brackets [OF rb sc, of keyword_table False False "[]"]
      eof_inside_brackets [OF rb' sc, of keyword_table False False "[]"]
    by (simp add: initial_def)
qed

subsection \<open>C7: a line that is only a comment\<close>

text \<open>
  C7: for the input consisting of the one line \<^verbatim>\<open>// just a comment\<close>, without the option
  CollectAllComments the function returns after that one read, with the line, no error
  and the first-token offset -1; with the option it reads again: the second read finds
  the end of the input, and its error is returned with the same text and offset. With
  more input after the line, the loop goes on with that input.
\<close>

theorem comment_only_line:
  "ReadMultiline lookup \<lparr>pending = ''// just a comment\<newline>'', failure = f, calls = 0\<rparr> 0 out prompt =
     (Returned ''// just a comment\<newline>'' (- 1) None, out,
      \<lparr>pending = [], failure = f, calls = 1\<rparr>) \<and>
   ReadMultiline lookup \<lparr>pending = ''// just a comment\<newline>'', failure = f, calls = 0\<rparr>
       ReadOptCollectAllComments out prompt =
     (Returned ''// just a comment\<newline>'' (- 1) (Some f), out,
      \<lparr>pending = [], failure = f, calls = 2\<rparr>) \<and>
   ReadMultiline lookup \<lparr>pending = ''// just a comment\<newline>'' @ rest, failure = f, calls = 0\<rparr>
       ReadOptCollectAllComments out prompt =
     read_loop lookup False True
       (initial\<lparr>line := ''// just a comment\<newline>'', buf := ''// just a comment\<newline>''\<rparr>)
       out \<lparr>pending = rest, failure = f, calls = 1\<rparr>"
proof (intro conjI)
  show "ReadMultiline lookup \<lparr>pending = ''// just a comment\<newline>'', failure = f, calls = 0\<rparr> 0 out prompt =
     (Returned ''// just a comment\<newline>'' (- 1) None, out,
      \<lparr>pending = [], failure = f, calls = 1\<rparr>)"
    by code_simp
next
  have rb: "ReadBytes \<lparr>pending = ''// just a comment\<newline>'' @ rest, failure = f, calls = 0\<rparr> =
      (''// just a comment\<newline>'', None, \<lparr>pending = rest, failure = f, calls = 1\<rparr>)"
    by code_simp
  have lb: "loop_body lookup False True ''// just a comment\<newline>'' None initial out =
      Again (initial\<lparr>line := ''// just a comment\<newline>'', buf := ''// just a comment\<newline>''\<rparr>) out"
    by code_simp
  show more: "ReadMultiline lookup \<lparr>pending = ''// just a comment\<newline>'' @ rest, failure = f, calls = 0\<rparr>
       ReadOptCollectAllComments out prompt =
     read_loop lookup False True
       (initial\<lparr>line := ''// just a comment\<newline>'', buf := ''// just a comment\<newline>''\<rparr>)
       out \<lparr>pending = rest, failure = f, calls = 1\<rparr>"
    unfolding ReadMultiline_all_comments by (rule read_loop_Again [OF rb lb])
  have rb0: "ReadBytes \<lparr>pending = ''// just a comment\<newline>'', failure = f, calls = 0\<rparr> =
      (''// just a comment\<newline>'', None, \<lparr>pending = [], failure = f, calls = 1\<rparr>)"
    by code_simp
  have rb1: "ReadBytes \<lparr>pending = [], failure = f, calls = 1\<rparr> =
      ([], Some f, \<lparr>pending = [], failure = f, calls = 2\<rparr>)"
    by code_simp
  have lb1: "loop_body lookup False True [] (Some f)
        (initial\<lparr>line := ''// just a comment\<newline>'', buf := ''// just a comment\<newline>''\<rparr>) out =
      Stop (Returned ''// just a comment\<newline>'' (- 1) (Some f)) out"
    by (simp add: loop_body_def scan_line_def initial_def)
  show "ReadMultiline lookup \<lparr>pending = ''// just a comment\<newline>'', failure = f, calls = 0\<rparr>
       ReadOptCollectAllComments out prompt =
     (Returned ''// just a comment\<newline>'' (- 1) (Some f), out,
      \<lparr>pending = [], failure = f, calls = 2\<rparr>)"
    unfolding ReadMultiline_all_comments
    by (rule trans [OF read_loop_Again [OF rb0 lb] read_loop_Stop [OF rb1 lb1]])
qed

theorem comment_only_line_witness:
  "ReadMultiline keyword_table (input ''// just a comment\<newline>'') 0 [] [] =
     (Returned ''// just a comment\<newline>'' (- 1) None, [],
      \<lparr>pending = [], failure = EOF, calls = 1\<rparr>) \<and>
   ReadMultiline keyword_table (input ''// just a comment\<newline>'') ReadOptCollectAllComments [] [] =
     (Returned ''// just a comment\<newline>'' (- 1) (Some EOF), [],
      \<lparr>pending = [], failure = EOF, calls = 2\<rparr>)"
proof -
  note inst = comment_only_line
      [where lookup = keyword_table and f = EOF and out = "[]" and prompt = "[]" and rest = "[]"]
  show ?thesis
    unfolding input_def
    by (intro conjI) (rule inst [THEN conjunct1], rule inst [THEN conjunct2, THEN conjunct1])
qed

subsection \<open>C8: a line starting with \<^verbatim>\<open>#!\<close>\<close>

text \<open>
  C8: the scan of the first line \<^verbatim>\<open>#!/usr/bin/env tool\<close> rewrites its first two bytes to
  \<^verbatim>\<open>//\<close>, finds no token (both offsets stay -1) and ends in mode LineComment; at the end
  of the line the rewritten line is appended to the buffer and the mode is Normal again
  for the next line; and without options the rewritten line is returned after one read.
\<close>

theorem shebang_line:
  "scan_line (initial\<lparr>line := ''#!/usr/bin/env tool\<newline>''\<rparr>) =
     Inr (initial\<lparr>m := mLineComment, line := ''///usr/bin/env tool\<newline>''\<rparr>) \<and>
   loop_body lookup False True ''#!/usr/bin/env tool\<newline>'' None initial out =
     Again (initial\<lparr>line := ''///usr/bin/env tool\<newline>'', buf := ''///usr/bin/env tool\<newline>''\<rparr>)
       out \<and>
   ReadMultiline lookup \<lparr>pending = ''#!/usr/bin/env tool\<newline>'' @ rest, failure = f, calls = 0\<rparr> 0
       out prompt =
     (Returned ''///usr/bin/env tool\<newline>'' (- 1) None, out,
      \<lparr>pending = rest, failure = f, calls = 1\<rparr>)"
  by (intro conjI; code_simp)

theorem shebang_line_witness:
  "scan_line (initial\<lparr>line := ''#!/usr/bin/env tool\<newline>''\<rparr>) =
     Inr (initial\<lparr>m := mLineComment, line := ''///usr/bin/env tool\<newline>''\<rparr>) \<and>
   ReadMultiline keyword_table (input ''#!/usr/bin/env tool\<newline>x\<newline>'') 0 [] [] =
     (Returned ''///usr/bin/env tool\<newline>'' (- 1) None, [],
      \<lparr>pending = ''x\<newline>'', failure = EOF, calls = 1\<rparr>)"
proof -
  note inst = shebang_line
      [where lookup = keyword_table and rest = "''x\<newline>''" and f = EOF and out = "[]"
         and prompt = "[]"]
  show ?thesis
    using inst [THEN conjunct1] inst [THEN conjunct2, THEN conjunct2]
    by (simp add: input_def)
qed

subsection \<open>C9: the byte that resolves Slash, Hash or Tilde\<close>

lemma blank_or_not: "(if SPACE < ch then CHR ''x'' else SPACE) \<le> SPACE \<longleftrightarrow> ch \<le> SPACE"
  "SPACE < (if SPACE < ch then CHR ''x'' else SPACE) \<longleftrightarrow> SPACE < ch"
  by auto

text \<open>
  C9: in mode Slash on a byte other than \<^verbatim>\<open>/\<close> and \<^verbatim>\<open>*\<close>, in mode Hash on a byte other than
  \<^verbatim>\<open>!\<close>, and in mode Tilde on any byte, the step leaves the switch in mode Normal with the
  depth, the line and the buffer unchanged; it sets \<open>ignorenl\<close> only by the rule of
  mode Slash for a white-space byte, never by the operator rule; a byte above space is
  recorded as the last token; and the step is the same as for the letter \<^verbatim>\<open>x\<close> (for a byte
  above space) or for a space (otherwise), so the byte is not interpreted under the rules
  of mode Normal: no bracket count, no literal, no comment, no operator.
\<close>

theorem resolving_byte_not_interpreted:
  assumes "(m s = mSlash \<and> ch \<noteq> CHR ''/'' \<and> ch \<noteq> CHR ''*'') \<or>
           (m s = mHash \<and> ch \<noteq> CHR ''!'') \<or> m s = mTilde"
  shows "\<exists>s1. scan_char i ch s = Fall s1 \<and>
           m s1 = mNormal \<and> paren s1 = paren s \<and> line s1 = line s \<and> buf s1 = buf s \<and>
           (ignorenl s1 \<longrightarrow> ignorenl s \<or> (m s = mSlash \<and> ch \<le> SPACE)) \<and>
           (ch > SPACE \<longrightarrow> lastToken s1 = int (length (buf s)) + int i) \<and>
           scan_char i (if ch > SPACE then CHR ''x'' else SPACE) s = Fall s1"
proof -
  let ?c = "if ch > SPACE then CHR ''x'' else SPACE"
  have c: "?c \<noteq> CHR ''/''" "?c \<noteq> CHR ''*''" "?c \<noteq> CHR ''!''"
    by simp_all
  from assms consider
      (slash) "m s = mSlash" "ch \<noteq> CHR ''/''" "ch \<noteq> CHR ''*''"
    | (hash) "m s = mHash" "ch \<noteq> CHR ''!''"
    | (tilde) "m s = mTilde"
    by blast
  then show ?thesis
  proof cases
    case slash
    have sw: "switch_mode i ch s =
            (if ch \<le> SPACE then Fall (s\<lparr>m := mNormal, ignorenl := True\<rparr>)
             else Fall (foundtoken (int i - 1) (s\<lparr>m := mNormal\<rparr>)))"
      "switch_mode i ?c s =
            (if ch \<le> SPACE then Fall (s\<lparr>m := mNormal, ignorenl := True\<rparr>)
             else Fall (foundtoken (int i - 1) (s\<lparr>m := mNormal\<rparr>)))"
      using slash c by (simp_all add: switch_mode_def Let_def blank_or_not del: if_split)
    show ?thesis
      using slash by (simp add: scan_char_def sw resetnl_def Let_def blank_or_not) 
  next
    case hash
    have sw: "switch_mode i ch s = Fall (foundtoken (int i - 1) (s\<lparr>m := mNormal\<rparr>))"
      "switch_mode i ?c s = Fall (foundtoken (int i - 1) (s\<lparr>m := mNormal\<rparr>))"
      using hash c by (simp_all add: switch_mode_def)
    show ?thesis
      using hash by (simp add: scan_char_def sw resetnl_def Let_def blank_or_not)
  next
    case tilde
    have sw: "switch_mode i ch s = Fall (s\<lparr>m := mNormal\<rparr>)"
      "switch_mode i ?c s = Fall (s\<lparr>m := mNormal\<rparr>)"
      using tilde by (simp_all add: switch_mode_def)
    show ?thesis
      using tilde by (simp add: scan_char_def sw resetnl_def Let_def blank_or_not)
  qed
qed


theorem resolving_byte_not_interpreted_witness:
  "((m (initial\<lparr>m := mSlash, line := ''/(''\<rparr>) = mSlash \<and> CHR ''('' \<noteq> CHR ''/'' \<and> CHR ''('' \<noteq> CHR ''*'') \<or>
    (m (initial\<lparr>m := mSlash, line := ''/(''\<rparr>) = mHash \<and> CHR ''('' \<noteq> CHR ''!'') \<or>
    m (initial\<lparr>m := mSlash, line := ''/(''\<rparr>) = mTilde) \<and>
   scan_char 1 (CHR ''('') (initial\<lparr>m := mSlash, line := ''/(''\<rparr>) =
     Fall (initial\<lparr>firstToken := 0, lastToken := 1, line := ''/(''\<rparr>) \<and>
   scan_char 1 (CHR ''x'') (initial\<lparr>m := mSlash, line := ''/(''\<rparr>) =
     Fall (initial\<lparr>firstToken := 0, lastToken := 1, line := ''/(''\<rparr>) \<and>
   scan_line (initial\<lparr>line := ''/(''\<rparr>) =
     Inr (initial\<lparr>firstToken := 0, lastToken := 1, line := ''/(''\<rparr>) \<and>
   scan_line (initial\<lparr>line := ''#(''\<rparr>) =
     Inr (initial\<lparr>firstToken := 0, lastToken := 1, line := ''#(''\<rparr>) \<and>
   scan_line (initial\<lparr>line := ''~(''\<rparr>) =
     Inr (initial\<lparr>firstToken := 0, lastToken := 1, line := ''~(''\<rparr>) \<and>
   scan_line (initial\<lparr>line := ''+(''\<rparr>) =
     Inr (initial\<lparr>paren := 1, firstToken := 0, lastToken := 1, line := ''+(''\<rparr>)"
proof -
  have ex: "scan_line (initial\<lparr>line := ''/(''\<rparr>) =
      Inr (initial\<lparr>firstToken := 0, lastToken := 1, line := ''/(''\<rparr>)"
    "scan_line (initial\<lparr>line := ''#(''\<rparr>) =
      Inr (initial\<lparr>firstToken := 0, lastToken := 1, line := ''#(''\<rparr>)"
    "scan_line (initial\<lparr>line := ''~(''\<rparr>) =
      Inr (initial\<lparr>firstToken := 0, lastToken := 1, line := ''~(''\<rparr>)"
    "scan_line (initial\<lparr>line := ''+(''\<rparr>) =
      Inr (initial\<lparr>paren := 1, firstToken := 0, lastToken := 1, line := ''+(''\<rparr>)"
    by code_simp+
  have st: "scan_char 1 (CHR ''('') (initial\<lparr>m := mSlash, line := ''/(''\<rparr>) =
      Fall (initial\<lparr>firstToken := 0, lastToken := 1, line := ''/(''\<rparr>)"
    by code_simp
  show ?thesis
    using ex st
      resolving_byte_not_interpreted [of "initial\<lparr>m := mSlash, line := ''/(''\<rparr>" "CHR ''(''" 1]
    by (simp add: initial_def)
qed

subsection \<open>C10: more closing than opening brackets\<close>

text \<open>
  C10: a depth below 0 counts as balanced. At any iteration, a line read without error
  that ends at a negative depth, in mode Normal (or in a line comment), with
  \<open>ignorenl\<close> clear, a token found and no keyword at its end, ends the episode with no
  error; and \<open>EOF\<close> at a depth of 0 or below is returned as the plain \<open>EOF\<close>. In
  particular a first line \<^verbatim>\<open>)\<close> is returned after that one read, and the input \<^verbatim>\<open>)\<close>
  with no newline gives the plain \<open>EOF\<close>.
\<close>

theorem negative_depth_is_balanced:
  "(ReadBytes rd = (raw, None, rd1) \<and> scan_line (s\<lparr>line := replace_psep raw\<rparr>) = Inr s1 \<and>
    paren s1 < 0 \<and> \<not> ignorenl s1 \<and> (m s1 = mNormal \<or> m s1 = mLineComment) \<and>
    0 \<le> firstToken s1 \<and>
    \<not> lastIsKeywordIgnoresNl lookup (line s1) (firstToken s1) (lastToken s1) \<longrightarrow>
    read_loop lookup optPrompt optAllComments s out rd =
      (Returned (buf s @ line s1) (firstToken s1) None, out, rd1)) \<and>
   (ReadBytes rd = (raw, Some EOF, rd1) \<and> scan_line (s\<lparr>line := replace_psep raw\<rparr>) = Inr s1 \<and>
    paren s1 \<le> 0 \<longrightarrow>
    read_loop lookup optPrompt optAllComments s out rd =
      (Returned (buf s @ line s1) (firstToken s1) (Some EOF), out, rd1)) \<and>
   ReadMultiline lookup \<lparr>pending = '')\<newline>'' @ rest, failure = f, calls = 0\<rparr> 0 out prompt =
     (Returned '')\<newline>'' 0 None, out, \<lparr>pending = rest, failure = f, calls = 1\<rparr>) \<and>
   ReadMultiline lookup (input '')'') 0 out prompt =
     (Returned '')'' 0 (Some EOF), out, \<lparr>pending = [], failure = EOF, calls = 1\<rparr>)"
proof (intro conjI impI)
  assume a: "ReadBytes rd = (raw, None, rd1) \<and> scan_line (s\<lparr>line := replace_psep raw\<rparr>) = Inr s1 \<and>
    paren s1 < 0 \<and> \<not> ignorenl s1 \<and> (m s1 = mNormal \<or> m s1 = mLineComment) \<and>
    0 \<le> firstToken s1 \<and>
    \<not> lastIsKeywordIgnoresNl lookup (line s1) (firstToken s1) (lastToken s1)"
  then have "loop_body lookup optPrompt optAllComments raw None s out =
           Stop (Returned (buf s @ line s1) (firstToken s1) None) out"
    by (intro loop_body_complete) simp_all
  with a show "read_loop lookup optPrompt optAllComments s out rd =
      (Returned (buf s @ line s1) (firstToken s1) None, out, rd1)"
    by (intro read_loop_Stop) simp_all
next
  assume a: "ReadBytes rd = (raw, Some EOF, rd1) \<and> scan_line (s\<lparr>line := replace_psep raw\<rparr>) = Inr s1 \<and>
    paren s1 \<le> 0"
  then have "loop_body lookup optPrompt optAllComments raw (Some EOF) s out =
           Stop (Returned (buf s @ line s1) (firstToken s1) (Some EOF)) out"
    using loop_body_error [where e = EOF and s = s and raw = raw and ?s1.0 = s1] by simp
  with a show "read_loop lookup optPrompt optAllComments s out rd =
      (Returned (buf s @ line s1) (firstToken s1) (Some EOF), out, rd1)"
    by (intro read_loop_Stop) simp_all
next
  show "ReadMultiline lookup \<lparr>pending = '')\<newline>'' @ rest, failure = f, calls = 0\<rparr> 0 out prompt =
     (Returned '')\<newline>'' 0 None, out, \<lparr>pending = rest, failure = f, calls = 1\<rparr>)"
    by code_simp
next
  show "ReadMultiline lookup (input '')'') 0 out prompt =
     (Returned '')'' 0 (Some EOF), out, \<lparr>pending = [], failure = EOF, calls = 1\<rparr>)"
    by code_simp
qed


theorem negative_depth_is_balanced_witness:
  "ReadBytes (input '')\<newline>x'') = ('')\<newline>'', None, \<lparr>pending = ''x'', failure = EOF, calls = 1\<rparr>) \<and>
   scan_line (initial\<lparr>line := replace_psep '')\<newline>''\<rparr>) =
     Inr (initial\<lparr>paren := - 1, firstToken := 0, lastToken := 0, line := '')\<newline>''\<rparr>) \<and>
   \<not> lastIsKeywordIgnoresNl keyword_table '')\<newline>'' 0 0 \<and>
   read_loop keyword_table False False initial [] (input '')\<newline>x'') =
     (Returned '')\<newline>'' 0 None, [], \<lparr>pending = ''x'', failure = EOF, calls = 1\<rparr>) \<and>
   ReadBytes (input ''))'') = (''))'', Some EOF, \<lparr>pending = [], failure = EOF, calls = 1\<rparr>) \<and>
   scan_line (initial\<lparr>line := replace_psep ''))''\<rparr>) =
     Inr (initial\<lparr>paren := - 2, firstToken := 0, lastToken := 1, line := ''))''\<rparr>) \<and>
   read_loop keyword_table False False initial [] (input ''))'') =
     (Returned ''))'' 0 (Some EOF), [], \<lparr>pending = [], failure = EOF, calls = 1\<rparr>)"
proof -
  let ?s1 = "initial\<lparr>paren := - 1, firstToken := 0, lastToken := 0, line := '')\<newline>''\<rparr>"
  let ?s2 = "initial\<lparr>paren := - 2, firstToken := 0, lastToken := 1, line := ''))''\<rparr>"
  have rb1: "ReadBytes (input '')\<newline>x'') =
      ('')\<newline>'', None, \<lparr>pending = ''x'', failure = EOF, calls = 1\<rparr>)"
    by code_simp
  have sc1: "scan_line (initial\<lparr>line := replace_psep '')\<newline>''\<rparr>) = Inr ?s1"
    by code_simp
  have kw: "\<not> lastIsKeywordIgnoresNl keyword_table '')\<newline>'' 0 0"
    by code_simp
  have rb2: "ReadBytes (input ''))'') =
      (''))'', Some EOF, \<lparr>pending = [], failure = EOF, calls = 1\<rparr>)"
    by code_simp
  have sc2: "scan_line (initial\<lparr>line := replace_psep ''))''\<rparr>) = Inr ?s2"
    by code_simp
  have st1: "paren ?s1 < 0 \<and> \<not> ignorenl ?s1 \<and> (m ?s1 = mNormal \<or> m ?s1 = mLineComment) \<and>
      0 \<le> firstToken ?s1 \<and>
      \<not> lastIsKeywordIgnoresNl keyword_table (line ?s1) (firstToken ?s1) (lastToken ?s1)"
    using kw by (simp add: initial_def)
  have st2: "paren ?s2 \<le> 0"
    by (simp add: initial_def)
  note thm1 = negative_depth_is_balanced
      [where rd = "input '')\<newline>x''" and raw = "'')\<newline>''" and s = initial and ?s1.0 = ?s1
         and lookup = keyword_table and optPrompt = False and optAllComments = False and out = "[]"
         and ?rd1.0 = "\<lparr>pending = ''x'', failure = EOF, calls = 1\<rparr>",
       THEN conjunct1, rule_format, OF conjI [OF rb1 conjI [OF sc1 st1]]]
  note thm2 = negative_depth_is_balanced
      [where rd = "input ''))''" and raw = "''))''" and s = initial and ?s1.0 = ?s2
         and lookup = keyword_table and optPrompt = False and optAllComments = False and out = "[]"
         and ?rd1.0 = "\<lparr>pending = [], failure = EOF, calls = 1\<rparr>",
       THEN conjunct2, THEN conjunct1, rule_format, OF conjI [OF rb2 conjI [OF sc2 st2]]]
  show ?thesis
    using rb1 sc1 kw rb2 sc2 thm1 thm2
    by (simp add: initial_def)
qed

end
